theory Spec2Isabelle
  imports Main "HOL-Library.Word"
begin

section \<open>Credential configuration (auth/config.go)\<close>

text \<open>
  The Go struct \<^verbatim>\<open>AuthConfig\<close>. Go strings are byte sequences, as \<^typ>\<open>string\<close> is here.
\<close>

record AuthConfig =
  AuthType :: string
  RefreshToken :: string
  ClientID :: string
  ClientSecret :: string
  Disabled :: bool

definition AuthMethodSocial :: string where
  "AuthMethodSocial = ''Social''"

definition AuthMethodIdC :: string where
  "AuthMethodIdC = ''IdC''"

definition defaultConfigFile :: string where
  "defaultConfigFile = ''auth_config.json''"

text \<open>
  Every \<^verbatim>\<open>fmt.Errorf\<close> of the two files is one constructor; a wrapped error (\<^verbatim>\<open>%w\<close>)
  carries the error it wraps.
\<close>

datatype auth_error =
    EmptyRefreshToken
  | IdCMissingClient
  | InvalidIndex int
  | InvalidJSON
  | ReadFileFailed string
  | ParseFileFailed auth_error string
  | ParseEnvFailed auth_error
  | LoadConfigsFailed auth_error
  | MarshalFailed
  | WriteFileFailed string

text \<open>
  The body of the loop of \<^verbatim>\<open>processConfigs\<close> and the first half of \<^verbatim>\<open>AddConfig\<close> both set
  the default auth type on their copy of the config.
\<close>

definition setDefaultAuthType :: "AuthConfig \<Rightarrow> AuthConfig" where
  "setDefaultAuthType config =
     (if AuthType config = [] then config\<lparr>AuthType := AuthMethodSocial\<rparr> else config)"

text \<open>\<^verbatim>\<open>processConfigs\<close>: the loop over the configs, each \<^verbatim>\<open>continue\<close> a skipped element.\<close>

fun processConfigs :: "AuthConfig list \<Rightarrow> AuthConfig list" where
  "processConfigs [] = []"
| "processConfigs (config # rest) =
     (if RefreshToken config = [] then processConfigs rest
      else let config' = setDefaultAuthType config in
        if AuthType config' = AuthMethodIdC
           \<and> (ClientID config' = [] \<or> ClientSecret config' = [])
        then processConfigs rest
        else if Disabled config' then processConfigs rest
        else config' # processConfigs rest)"

section \<open>Parsing and loading (auth/config.go)\<close>

text \<open>
  \<^verbatim>\<open>encoding/json\<close> is a library, not code of this repository: the two calls of
  \<^verbatim>\<open>json.Unmarshal\<close> in \<^verbatim>\<open>parseJSONConfig\<close>, into a slice of configs and into a single
  config, are parameters. \<^const>\<open>None\<close> stands for a non-nil error; the code reads nothing
  else of a failed call.
\<close>

type_synonym unmarshal_configs = "string \<Rightarrow> AuthConfig list option"
type_synonym unmarshal_single = "string \<Rightarrow> AuthConfig option"

definition parseJSONConfig ::
  "unmarshal_configs \<Rightarrow> unmarshal_single \<Rightarrow> string \<Rightarrow> auth_error + AuthConfig list"
where
  "parseJSONConfig unmarshalConfigs unmarshalSingle jsonData =
     (case unmarshalConfigs jsonData of
        Some configs \<Rightarrow> Inr configs
      | None \<Rightarrow>
          (case unmarshalSingle jsonData of
             None \<Rightarrow> Inl InvalidJSON
           | Some single \<Rightarrow> Inr [single]))"

text \<open>
  The file system as far as the loader sees it: \<^verbatim>\<open>os.Stat\<close> (does the path name
  something that is not a directory), \<^verbatim>\<open>os.ReadFile\<close> and \<^verbatim>\<open>os.WriteFile\<close>. A regular
  file has an access flag (a file that exists and cannot be opened makes the read or the
  write fail), its permission bits and its content.
\<close>

datatype fsnode = Directory | RegularFile (accessible: bool) (mode: nat) (content: string)

type_synonym filesystem = "string \<Rightarrow> fsnode option"

definition statIsFile :: "filesystem \<Rightarrow> string \<Rightarrow> bool" where
  "statIsFile fs path = (case fs path of Some (RegularFile _ _ _) \<Rightarrow> True | _ \<Rightarrow> False)"

definition ReadFile :: "filesystem \<Rightarrow> string \<Rightarrow> string option" where
  "ReadFile fs path =
     (case fs path of Some (RegularFile True _ data) \<Rightarrow> Some data | _ \<Rightarrow> None)"

text \<open>
  \<^verbatim>\<open>os.WriteFile\<close> creates a missing file with the permission given and truncates an
  existing one, whose permission it keeps.
\<close>

definition WriteFile :: "filesystem \<Rightarrow> string \<Rightarrow> string \<Rightarrow> nat \<Rightarrow> filesystem option" where
  "WriteFile fs path data perm =
     (case fs path of
        None \<Rightarrow> Some (fs(path \<mapsto> RegularFile True perm data))
      | Some (RegularFile True m _) \<Rightarrow> Some (fs(path \<mapsto> RegularFile True m data))
      | _ \<Rightarrow> None)"

definition loadConfigsFromFile ::
  "unmarshal_configs \<Rightarrow> unmarshal_single \<Rightarrow> filesystem \<Rightarrow> string
     \<Rightarrow> auth_error + AuthConfig list"
where
  "loadConfigsFromFile unmarshalConfigs unmarshalSingle fs path =
     (case ReadFile fs path of
        None \<Rightarrow> Inl (ReadFileFailed path)
      | Some data \<Rightarrow>
          (case parseJSONConfig unmarshalConfigs unmarshalSingle data of
             Inl err \<Rightarrow> Inl (ParseFileFailed err path)
           | Inr configs \<Rightarrow>
               if length configs = 0 then Inr []
               else let validConfigs = processConfigs configs in
                 if length validConfigs = 0 then Inr [] else Inr validConfigs))"

text \<open>
  \<^verbatim>\<open>loadConfigsWithPath\<close> returns the configs or the error, and the path kept for
  persistence. The environment is the function \<^verbatim>\<open>os.Getenv\<close> (empty for an unset
  variable). The warnings about deprecated variables only log.
\<close>

definition loadConfigsWithPath ::
  "unmarshal_configs \<Rightarrow> unmarshal_single \<Rightarrow> (string \<Rightarrow> string) \<Rightarrow> filesystem
     \<Rightarrow> (auth_error + AuthConfig list) \<times> string"
where
  "loadConfigsWithPath unmarshalConfigs unmarshalSingle getenv fs =
     (let configFilePath = defaultConfigFile;
          jsonData = getenv ''KIRO_AUTH_TOKEN'' in
      if jsonData \<noteq> [] \<and> statIsFile fs jsonData
      then (loadConfigsFromFile unmarshalConfigs unmarshalSingle fs jsonData, jsonData)
      else if statIsFile fs configFilePath
      then (loadConfigsFromFile unmarshalConfigs unmarshalSingle fs configFilePath,
            configFilePath)
      else if jsonData = [] then (Inr [], configFilePath)
      else
        (case parseJSONConfig unmarshalConfigs unmarshalSingle jsonData of
           Inl err \<Rightarrow> (Inl (ParseEnvFailed err), configFilePath)
         | Inr configs \<Rightarrow>
             if length configs = 0 then (Inr [], configFilePath)
             else let validConfigs = processConfigs configs in
               if length validConfigs = 0 then (Inr [], configFilePath)
               else (Inr validConfigs, configFilePath)))"

definition loadConfigs ::
  "unmarshal_configs \<Rightarrow> unmarshal_single \<Rightarrow> (string \<Rightarrow> string) \<Rightarrow> filesystem
     \<Rightarrow> auth_error + AuthConfig list"
where
  "loadConfigs unmarshalConfigs unmarshalSingle getenv fs =
     fst (loadConfigsWithPath unmarshalConfigs unmarshalSingle getenv fs)"

text \<open>
  \<^verbatim>\<open>SaveConfigsToFile\<close>: \<^verbatim>\<open>json.MarshalIndent\<close> is the library's and a parameter; the
  file is written with permission \<^verbatim>\<open>0o600\<close>. The result is Go's error (\<^const>\<open>None\<close> for
  nil) and the file system after the call.
\<close>

definition ownerOnly :: nat where
  "ownerOnly = 6 * 64"

definition SaveConfigsToFile ::
  "(AuthConfig list \<Rightarrow> string option) \<Rightarrow> string \<Rightarrow> AuthConfig list \<Rightarrow> filesystem
     \<Rightarrow> auth_error option \<times> filesystem"
where
  "SaveConfigsToFile marshalIndent path configs fs =
     (case marshalIndent configs of
        None \<Rightarrow> (Some MarshalFailed, fs)
      | Some data \<Rightarrow>
          (case WriteFile fs path data ownerOnly of
             None \<Rightarrow> (Some (WriteFileFailed path), fs)
           | Some fs' \<Rightarrow> (None, fs')))"

section \<open>The authentication service (auth/auth.go)\<close>

text \<open>
  \<^verbatim>\<open>AuthService\<close> holds the token manager and the config list. The token manager's own
  file is not part of the sources at hand, so its type is a parameter \<^typ>\<open>'tm\<close> and the
  calls into it (\<^verbatim>\<open>NewTokenManager\<close>, \<^verbatim>\<open>tokenManager.AddConfig\<close>, the warm-up
  \<^verbatim>\<open>getBestToken\<close>) are arguments of the operations that make them.

  The methods have pointer receivers and return Go's \<^verbatim>\<open>error\<close>: each is a function from
  the service to the error (\<^const>\<open>None\<close> for nil) and the service after the call.
\<close>

record 'tm AuthService =
  tokenManager :: 'tm
  configs :: "AuthConfig list"

definition NewAuthService ::
  "(AuthConfig list \<Rightarrow> 'tm) \<Rightarrow> ('tm \<Rightarrow> 'tm) \<Rightarrow> unmarshal_configs \<Rightarrow> unmarshal_single
     \<Rightarrow> (string \<Rightarrow> string) \<Rightarrow> filesystem \<Rightarrow> auth_error + 'tm AuthService"
where
  "NewAuthService newTokenManager warmup unmarshalConfigs unmarshalSingle getenv fs =
     (case loadConfigs unmarshalConfigs unmarshalSingle getenv fs of
        Inl err \<Rightarrow> Inl (LoadConfigsFailed err)
      | Inr cfgs \<Rightarrow>
          if length cfgs = 0
          then Inr \<lparr>tokenManager = newTokenManager cfgs, configs = cfgs\<rparr>
          else Inr \<lparr>tokenManager = warmup (newTokenManager cfgs), configs = cfgs\<rparr>)"

definition AddConfig ::
  "(AuthConfig \<Rightarrow> 'tm \<Rightarrow> 'tm) \<Rightarrow> AuthConfig \<Rightarrow> 'tm AuthService
     \<Rightarrow> auth_error option \<times> 'tm AuthService"
where
  "AddConfig tmAddConfig config as =
     (if RefreshToken config = [] then (Some EmptyRefreshToken, as)
      else let config' = setDefaultAuthType config in
        if AuthType config' = AuthMethodIdC
           \<and> (ClientID config' = [] \<or> ClientSecret config' = [])
        then (Some IdCMissingClient, as)
        else (None, as\<lparr>configs := configs as @ [config'],
                        tokenManager := tmAddConfig config' (tokenManager as)\<rparr>))"

text \<open>
  \<^verbatim>\<open>RemoveConfig\<close>: Go's \<^verbatim>\<open>int\<close> index is an \<^typ>\<open>int\<close> here; the slice expression
  \<^verbatim>\<open>append(configs[:index], configs[index+1:]...)\<close> is \<^const>\<open>take\<close> followed by
  \<^const>\<open>drop\<close>. The token manager is rebuilt from the shortened list.
\<close>

definition RemoveConfig ::
  "(AuthConfig list \<Rightarrow> 'tm) \<Rightarrow> int \<Rightarrow> 'tm AuthService \<Rightarrow> auth_error option \<times> 'tm AuthService"
where
  "RemoveConfig newTokenManager index as =
     (if index < 0 \<or> index \<ge> int (length (configs as)) then (Some (InvalidIndex index), as)
      else let cs = take (nat index) (configs as) @ drop (nat index + 1) (configs as) in
        (None, as\<lparr>configs := cs, tokenManager := newTokenManager cs\<rparr>))"

definition GetConfigCount :: "'tm AuthService \<Rightarrow> int" where
  "GetConfigCount as = int (length (configs as))"

definition HasAvailableToken :: "'tm AuthService \<Rightarrow> bool" where
  "HasAvailableToken as \<longleftrightarrow> int (length (configs as)) > 0"

section \<open>The credential pool (token manager)\<close>

text \<open>
  Modelled from the spec: the token manager (\<^verbatim>\<open>TokenManager\<close>, \<^verbatim>\<open>NewTokenManager\<close>,
  \<^verbatim>\<open>TokenManager.AddConfig\<close>, \<^verbatim>\<open>getBestToken\<close>) is called by \<^verbatim>\<open>AuthService\<close> and its
  file is missing from the sources. The definitions of this section follow the spec's
  data model of a credential and its selection policy of the credential pool. What the
  spec leaves to the outside is a parameter: the identity provider's exchange, the clock,
  and the usage a fresh credential starts with.
\<close>

datatype pool_error = NoCredentialsAvailable | InvalidCredential | ProviderUnavailable

record Credential =
  credConfig :: AuthConfig
  accessToken :: "string option"
  expiry :: nat
  remainingUsage :: nat
  lastError :: "pool_error option"
  lastRefresh :: nat

type_synonym exchange = "AuthConfig \<Rightarrow> pool_error + string \<times> nat"

definition freshCredential :: "(AuthConfig \<Rightarrow> nat) \<Rightarrow> AuthConfig \<Rightarrow> Credential" where
  "freshCredential quota cfg =
     \<lparr>credConfig = cfg, accessToken = None, expiry = 0, remainingUsage = quota cfg,
      lastError = None, lastRefresh = 0\<rparr>"

definition NewTokenManager :: "(AuthConfig \<Rightarrow> nat) \<Rightarrow> AuthConfig list \<Rightarrow> Credential list" where
  "NewTokenManager quota cfgs = map (freshCredential quota) cfgs"

definition TokenManager_AddConfig ::
  "(AuthConfig \<Rightarrow> nat) \<Rightarrow> AuthConfig \<Rightarrow> Credential list \<Rightarrow> Credential list"
where
  "TokenManager_AddConfig quota cfg pool = pool @ [freshCredential quota cfg]"

text \<open>
  Modelled from the spec: a credential is skipped when it is disabled, when its remaining
  usage is zero, or when its last error marks it unusable (the invalid-credential class).
\<close>

definition eligible :: "Credential \<Rightarrow> bool" where
  "eligible c \<longleftrightarrow>
     \<not> Disabled (credConfig c) \<and> remainingUsage c \<noteq> 0 \<and> lastError c \<noteq> Some InvalidCredential"

definition expired :: "nat \<Rightarrow> Credential \<Rightarrow> bool" where
  "expired now c \<longleftrightarrow> accessToken c = None \<or> expiry c \<le> now"

text \<open>
  Modelled from the spec: a successful acquisition decrements the remaining usage of the
  credential.
\<close>

definition charge :: "Credential \<Rightarrow> Credential" where
  "charge c = c\<lparr>remainingUsage := remainingUsage c - 1\<rparr>"

text \<open>
  Modelled from the spec: the scan in stored order. The first eligible credential is
  selected; when its access token is expired or absent the refresh token is exchanged
  first, and a failed exchange is recorded on the credential, which stays in the pool, and
  the scan goes on.
\<close>

fun scan :: "exchange \<Rightarrow> nat \<Rightarrow> Credential list \<Rightarrow> Credential option \<times> Credential list" where
  "scan ex now [] = (None, [])"
| "scan ex now (c # cs) =
     (if \<not> eligible c then (fst (scan ex now cs), c # snd (scan ex now cs))
      else if expired now c then
        (case ex (credConfig c) of
           Inl err \<Rightarrow> (fst (scan ex now cs), c\<lparr>lastError := Some err\<rparr> # snd (scan ex now cs))
         | Inr (token, exp) \<Rightarrow>
             let c' = charge (c\<lparr>accessToken := Some token, expiry := exp,
                                 lastError := None, lastRefresh := now\<rparr>)
             in (Some c', c' # cs))
      else (Some (charge c), charge c # cs))"

text \<open>
  Modelled from the spec: when the scan selects nothing, the least recently refreshed
  expired credential is refreshed once. The exchange comes before the return: only when it
  succeeds, and the credential is eligible with its new token, is the credential charged
  and returned. A failed exchange is recorded on the credential, charges nothing, and the
  acquisition fails with \<^const>\<open>NoCredentialsAvailable\<close>, as it does when no credential is
  expired.
\<close>

definition leastRecentlyRefreshedExpired :: "nat \<Rightarrow> Credential list \<Rightarrow> nat option" where
  "leastRecentlyRefreshedExpired now pool =
     (case filter (\<lambda>i. expired now (pool ! i)) [0..<length pool] of
        [] \<Rightarrow> None
      | i # rest \<Rightarrow> Some (arg_min_list (\<lambda>j. lastRefresh (pool ! j)) (i # rest)))"

definition acquire ::
  "exchange \<Rightarrow> nat \<Rightarrow> Credential list \<Rightarrow> (pool_error + Credential) \<times> Credential list"
where
  "acquire ex now pool =
     (case scan ex now pool of
        (Some c, pool') \<Rightarrow> (Inr c, pool')
      | (None, pool') \<Rightarrow>
          (case leastRecentlyRefreshedExpired now pool' of
             None \<Rightarrow> (Inl NoCredentialsAvailable, pool')
           | Some i \<Rightarrow>
               (case ex (credConfig (pool' ! i)) of
                  Inl err \<Rightarrow>
                    (Inl NoCredentialsAvailable,
                     pool'[i := (pool' ! i)\<lparr>lastError := Some err\<rparr>])
                | Inr (token, exp) \<Rightarrow>
                    let c = (pool' ! i)\<lparr>accessToken := Some token, expiry := exp,
                                         lastError := None, lastRefresh := now\<rparr>
                    in if eligible c then (Inr (charge c), pool'[i := charge c])
                       else (Inl NoCredentialsAvailable, pool'[i := c]))))"

text \<open>
  \<^verbatim>\<open>AuthService.GetToken\<close> (auth/auth.go) hands the call to the token manager of the
  service. Its check for a nil token manager has no branch here: the field of the model
  always holds a token manager, as it does in every service \<^verbatim>\<open>NewAuthService\<close> returns.
\<close>

definition GetToken ::
  "exchange \<Rightarrow> nat \<Rightarrow> Credential list AuthService
     \<Rightarrow> (pool_error + Credential) \<times> Credential list AuthService"
where
  "GetToken ex now as =
     (let r = acquire ex now (tokenManager as) in (fst r, as\<lparr>tokenManager := snd r\<rparr>))"

section \<open>The token management routes (server package)\<close>

text \<open>
  The request body of \<^verbatim>\<open>POST /api/tokens\<close> and the response body of both routes. The
  messages and error texts of the Go code are constructors here; an error built by
  appending \<^verbatim>\<open>err.Error()\<close> carries that error.
\<close>

record AddTokenRequest =
  reqAuthType :: string
  reqRefreshToken :: string
  reqClientID :: string
  reqClientSecret :: string

datatype api_message = TokenAdded | TokenDeleted

datatype api_error =
    InvalidRequestFormat
  | RefreshTokenRequired
  | AddTokenFailed auth_error
  | InvalidIndexParameter
  | DeleteTokenFailed auth_error

record TokenAPIResponse =
  Success :: bool
  Message :: "api_message option"
  Error :: "api_error option"
  Count :: int

definition StatusOK :: nat where "StatusOK = 200"
definition StatusBadRequest :: nat where "StatusBadRequest = 400"
definition StatusInternalServerError :: nat where "StatusInternalServerError = 500"

definition failure :: "api_error \<Rightarrow> TokenAPIResponse" where
  "failure e = \<lparr>Success = False, Message = None, Error = Some e, Count = 0\<rparr>"

text \<open>
  What a handler can reach: the service it is handed, and the files of the process. The
  handlers and the service methods below them contain no file operation, so each returns
  the files it was given.
\<close>

record 'tm server_state =
  authService :: "'tm AuthService"
  files :: filesystem

text \<open>
  \<^verbatim>\<open>handleAddToken\<close>: the body is \<^const>\<open>None\<close> when \<^verbatim>\<open>ShouldBindJSON\<close> fails. The result
  is the status code with the response body, and the state after the call.
\<close>

definition handleAddToken ::
  "(AuthConfig \<Rightarrow> 'tm \<Rightarrow> 'tm) \<Rightarrow> AddTokenRequest option \<Rightarrow> 'tm server_state
     \<Rightarrow> (nat \<times> TokenAPIResponse) \<times> 'tm server_state"
where
  "handleAddToken tmAddConfig body st =
     (case body of
        None \<Rightarrow> ((StatusBadRequest, failure InvalidRequestFormat), st)
      | Some req \<Rightarrow>
          if reqRefreshToken req = []
          then ((StatusBadRequest, failure RefreshTokenRequired), st)
          else
            let config = \<lparr>AuthType = reqAuthType req, RefreshToken = reqRefreshToken req,
                          ClientID = reqClientID req, ClientSecret = reqClientSecret req,
                          Disabled = False\<rparr>;
                r = AddConfig tmAddConfig config (authService st);
                st' = st\<lparr>authService := snd r\<rparr>
            in (case fst r of
                  Some err \<Rightarrow> ((StatusInternalServerError, failure (AddTokenFailed err)), st')
                | None \<Rightarrow>
                    ((StatusOK, \<lparr>Success = True, Message = Some TokenAdded, Error = None,
                                 Count = GetConfigCount (authService st')\<rparr>), st')))"

text \<open>
  \<^verbatim>\<open>handleDeleteToken\<close>: \<^verbatim>\<open>strconv.Atoi\<close> is the library's and a parameter (\<^const>\<open>None\<close>
  when it returns an error).
\<close>

definition handleDeleteToken ::
  "(string \<Rightarrow> int option) \<Rightarrow> (AuthConfig list \<Rightarrow> 'tm) \<Rightarrow> string \<Rightarrow> 'tm server_state
     \<Rightarrow> (nat \<times> TokenAPIResponse) \<times> 'tm server_state"
where
  "handleDeleteToken Atoi newTokenManager indexStr st =
     (case Atoi indexStr of
        None \<Rightarrow> ((StatusBadRequest, failure InvalidIndexParameter), st)
      | Some index \<Rightarrow>
          let r = RemoveConfig newTokenManager index (authService st);
              st' = st\<lparr>authService := snd r\<rparr>
          in (case fst r of
                Some err \<Rightarrow> ((StatusBadRequest, failure (DeleteTokenFailed err)), st')
              | None \<Rightarrow>
                  ((StatusOK, \<lparr>Success = True, Message = Some TokenDeleted, Error = None,
                               Count = GetConfigCount (authService st')\<rparr>), st')))"

section \<open>The frame decoder\<close>

text \<open>
  Modelled from the spec: the frame decoder of the backend's event stream has no file
  among the sources. The definitions of this section follow the spec's data model of a
  backend frame (total length, header length, header block, payload, trailing checksum)
  and its decoding algorithm. The spec leaves the widths of the fields and the checksum
  algorithm open, so they are the parameters of a framing.
\<close>

type_synonym byte = "8 word"

record framing =
  prefixWidth :: nat
  checksumWidth :: nat
  checksum :: "byte list \<Rightarrow> byte list"

record CompleteFrame =
  headers :: "byte list"
  payload :: "byte list"

text \<open>
  Modelled from the spec: the decoder buffers the incomplete tail between calls; a
  corruption ends the stream of the connection.
\<close>

datatype decoder = Buffering "byte list" | Corrupted

text \<open>Modelled from the spec: a length prefix is a big-endian unsigned integer.\<close>

definition bigEndian :: "byte list \<Rightarrow> nat" where
  "bigEndian bs = foldl (\<lambda>acc b. acc * 256 + unat b) 0 bs"

text \<open>
  Modelled from the spec: the fixed overhead of a frame is its two length prefixes and its
  checksum; the total length is the header length plus the payload length plus the
  overhead.
\<close>

definition overhead :: "framing \<Rightarrow> nat" where
  "overhead F = prefixWidth F + prefixWidth F + checksumWidth F"

text \<open>
  Modelled from the spec: a fully buffered frame. The header length is read again from
  the frame, header and payload are split, and the trailing checksum is verified; a length
  that does not fit or a checksum that differs is a corruption (\<^const>\<open>None\<close>). A frame
  with an empty payload is a frame.
\<close>

definition decodeFrame :: "framing \<Rightarrow> byte list \<Rightarrow> CompleteFrame option" where
  "decodeFrame F bytes =
     (let total = length bytes;
          headerLen = bigEndian (take (prefixWidth F) (drop (prefixWidth F) bytes)) in
      if total < overhead F + headerLen then None
      else if checksum F (take (total - checksumWidth F) bytes)
                \<noteq> drop (total - checksumWidth F) bytes then None
      else Some \<lparr>headers = take headerLen (drop (2 * prefixWidth F) bytes),
                 payload = take (total - overhead F - headerLen)
                             (drop (2 * prefixWidth F + headerLen) bytes)\<rparr>)"

text \<open>
  Modelled from the spec: the frames of a buffer. With fewer bytes than a length prefix,
  or fewer than the total length the prefix announces, the decoder waits; otherwise it
  decodes the frame and goes on with the bytes after it. A total length of zero announces
  a frame that does not hold its own prefix and is a corruption.
\<close>

function extractFrames :: "framing \<Rightarrow> byte list \<Rightarrow> CompleteFrame list \<times> decoder" where
  "extractFrames F buf =
     (if length buf < prefixWidth F then ([], Buffering buf)
      else let total = bigEndian (take (prefixWidth F) buf) in
        if total = 0 then ([], Corrupted)
        else if length buf < total then ([], Buffering buf)
        else (case decodeFrame F (take total buf) of
                None \<Rightarrow> ([], Corrupted)
              | Some frame \<Rightarrow>
                  (frame # fst (extractFrames F (drop total buf)),
                   snd (extractFrames F (drop total buf)))))"
  by pat_completeness auto
termination
  by (relation "measure (\<lambda>(F, buf). length buf)") auto

declare extractFrames.simps [simp del]

text \<open>
  Modelled from the spec: \<^verbatim>\<open>feed\<close> appends the chunk to the buffered tail and returns
  the complete frames; after a corruption it returns nothing more.
\<close>

definition feed :: "framing \<Rightarrow> byte list \<Rightarrow> decoder \<Rightarrow> CompleteFrame list \<times> decoder" where
  "feed F chunk st =
     (case st of
        Corrupted \<Rightarrow> ([], Corrupted)
      | Buffering buf \<Rightarrow> extractFrames F (buf @ chunk))"

text \<open>
  Modelled from the spec: the reads of one connection, fed in order; the frames of all
  the calls in the order of their emission, and the decoder after the last.
\<close>

fun feedAll :: "framing \<Rightarrow> byte list list \<Rightarrow> decoder \<Rightarrow> CompleteFrame list \<times> decoder" where
  "feedAll F [] st = ([], st)"
| "feedAll F (chunk # chunks) st =
     (fst (feed F chunk st) @ fst (feedAll F chunks (snd (feed F chunk st))),
      snd (feedAll F chunks (snd (feed F chunk st))))"

text \<open>A decoder that has emitted \<open>fst r\<close> and is in state \<open>snd r\<close>, fed one more chunk.\<close>

definition resume ::
  "framing \<Rightarrow> byte list \<Rightarrow> CompleteFrame list \<times> decoder \<Rightarrow> CompleteFrame list \<times> decoder"
where
  "resume F nxt r = (fst r @ fst (feed F nxt (snd r)), snd (feed F nxt (snd r)))"

section \<open>Properties of configs and of configuration inputs\<close>

text \<open>
  The invariant of an admitted credential: a non-empty refresh token, and for the auth
  variant IdC a non-empty client id and client secret.
\<close>

definition admissible :: "AuthConfig \<Rightarrow> bool" where
  "admissible c \<longleftrightarrow>
     RefreshToken c \<noteq> [] \<and>
     (AuthType c = AuthMethodIdC \<longrightarrow> ClientID c \<noteq> [] \<and> ClientSecret c \<noteq> [])"

text \<open>
  A malformed input: it unmarshals neither as an array of configs nor as a single config.
\<close>

definition malformed :: "unmarshal_configs \<Rightarrow> unmarshal_single \<Rightarrow> string \<Rightarrow> bool" where
  "malformed unmarshalConfigs unmarshalSingle s \<longleftrightarrow>
     unmarshalConfigs s = None \<and> unmarshalSingle s = None"

section \<open>Basic facts\<close>

lemma setDefaultAuthType_fields:
  "RefreshToken (setDefaultAuthType c) = RefreshToken c"
  "ClientID (setDefaultAuthType c) = ClientID c"
  "ClientSecret (setDefaultAuthType c) = ClientSecret c"
  "Disabled (setDefaultAuthType c) = Disabled c"
  by (simp_all add: setDefaultAuthType_def)

lemma setDefaultAuthType_IdC:
  "AuthType (setDefaultAuthType c) = AuthMethodIdC \<longleftrightarrow> AuthType c = AuthMethodIdC"
  by (auto simp: setDefaultAuthType_def AuthMethodIdC_def AuthMethodSocial_def)

lemma admissible_setDefaultAuthType:
  "admissible (setDefaultAuthType c) \<longleftrightarrow> admissible c"
  by (simp add: admissible_def setDefaultAuthType_fields setDefaultAuthType_IdC)

lemma processConfigs_filter:
  "processConfigs cs =
     map setDefaultAuthType (filter (\<lambda>c. admissible c \<and> \<not> Disabled c) cs)"
proof (induction cs)
  case Nil
  show ?case by simp
next
  case (Cons c cs)
  show ?case
    using Cons.IH
    by (auto simp: Let_def admissible_def setDefaultAuthType_fields setDefaultAuthType_IdC)
qed

lemma processConfigs_admissible:
  "c \<in> set (processConfigs cs) \<Longrightarrow> admissible c"
  by (auto simp: processConfigs_filter admissible_setDefaultAuthType)

lemma processConfigs_append:
  "processConfigs (xs @ ys) = processConfigs xs @ processConfigs ys"
  by (simp add: processConfigs_filter)

lemma loadConfigsFromFile_admissible:
  assumes "loadConfigsFromFile uA uS fs path = Inr cfgs" and "c \<in> set cfgs"
  shows "admissible c"
  using assms
  by (auto simp: loadConfigsFromFile_def Let_def
           split: option.splits sum.splits if_splits
           dest: processConfigs_admissible)

lemma loadConfigs_admissible:
  assumes "loadConfigs uA uS getenv fs = Inr cfgs" and "c \<in> set cfgs"
  shows "admissible c"
  using assms
  by (auto simp: loadConfigs_def loadConfigsWithPath_def Let_def
           split: sum.splits if_splits
           dest: processConfigs_admissible loadConfigsFromFile_admissible)

lemma AddConfig_rejects:
  "fst (AddConfig tmAdd config as) \<noteq> None \<longleftrightarrow> \<not> admissible config"
  by (auto simp: AddConfig_def Let_def admissible_def setDefaultAuthType_fields
                 setDefaultAuthType_IdC)

lemma AddConfig_error_unchanged:
  "fst (AddConfig tmAdd config as) \<noteq> None \<Longrightarrow> snd (AddConfig tmAdd config as) = as"
  by (auto simp: AddConfig_def Let_def split: if_splits)

lemma AddConfig_success_configs:
  "fst (AddConfig tmAdd config as) = None \<Longrightarrow>
     configs (snd (AddConfig tmAdd config as)) = configs as @ [setDefaultAuthType config]"
  by (auto simp: AddConfig_def Let_def split: if_splits)

lemma scan_configs: "map credConfig (snd (scan ex now pool)) = map credConfig pool"
  by (induction pool) (auto simp: Let_def charge_def split: sum.splits prod.splits)

lemma scan_selected:
  "fst (scan ex now pool) = Some c \<Longrightarrow> credConfig c \<in> set (map credConfig pool)"
proof (induction pool)
  case Nil
  then show ?case by simp
next
  case (Cons a pool)
  then show ?case
    by (auto simp: Let_def charge_def split: if_splits sum.splits prod.splits)
qed

lemma leastRecentlyRefreshedExpired_bound:
  assumes "leastRecentlyRefreshedExpired now pool = Some i"
  shows "i < length pool"
proof -
  obtain j rest where f: "filter (\<lambda>i. expired now (pool ! i)) [0..<length pool] = j # rest"
    and i: "i = arg_min_list (\<lambda>j. lastRefresh (pool ! j)) (j # rest)"
    using assms by (auto simp: leastRecentlyRefreshedExpired_def split: list.splits)
  have "i \<in> set (j # rest)"
    unfolding i by (rule arg_min_list_in) simp
  then have "i \<in> set (filter (\<lambda>i. expired now (pool ! i)) [0..<length pool])"
    using f by simp
  then show ?thesis by simp
qed

lemma update_same_config:
  "i < length pool \<Longrightarrow> credConfig c = credConfig (pool ! i)
     \<Longrightarrow> map credConfig (pool[i := c]) = map credConfig pool"
  by (simp add: map_update list_update_same_conv)

lemma acquire_selected:
  assumes "fst (acquire ex now pool) = Inr c"
  shows "credConfig c \<in> set (map credConfig pool)"
proof (cases "fst (scan ex now pool)")
  case (Some d)
  then have "c = d"
    using assms by (auto simp: acquire_def split: prod.splits)
  then show ?thesis using scan_selected [of ex now pool d] Some by simp
next
  case None
  obtain pool' where sc: "scan ex now pool = (None, pool')"
    using None by (cases "scan ex now pool") auto
  have cfg': "map credConfig pool' = map credConfig pool"
    using scan_configs [of ex now pool] sc by simp
  obtain i where i: "leastRecentlyRefreshedExpired now pool' = Some i"
    using assms sc by (auto simp: acquire_def split: option.splits)
  have bound: "i < length pool'"
    by (rule leastRecentlyRefreshedExpired_bound [OF i])
  have "credConfig c = credConfig (pool' ! i)"
    using assms sc i
    by (auto simp: acquire_def Let_def charge_def split: sum.splits prod.splits if_splits)
  moreover have "credConfig (pool' ! i) \<in> set (map credConfig pool')"
    using bound by simp
  ultimately show ?thesis using cfg' by simp
qed

lemma acquire_configs: "map credConfig (snd (acquire ex now pool)) = map credConfig pool"
proof (cases "scan ex now pool")
  case (Pair r pool')
  have cfg': "map credConfig pool' = map credConfig pool"
    using scan_configs [of ex now pool] Pair by simp
  show ?thesis
  proof (cases r)
    case (Some d)
    then show ?thesis using Pair cfg' by (simp add: acquire_def)
  next
    case None
    show ?thesis
    proof (cases "leastRecentlyRefreshedExpired now pool'")
      case n: None
      then show ?thesis using Pair None cfg' by (simp add: acquire_def)
    next
      case (Some i)
      have bound: "i < length pool'"
        by (rule leastRecentlyRefreshedExpired_bound [OF Some])
      show ?thesis
        using Pair None Some cfg' bound
        by (auto simp: acquire_def Let_def charge_def update_same_config
                 split: sum.splits prod.splits)
    qed
  qed
qed

text \<open>
  The credential an acquisition returns holds an access token, and an acquisition that
  fails because the exchange fails charges no usage.
\<close>

lemma scan_token: "fst (scan ex now pool) = Some c \<Longrightarrow> accessToken c \<noteq> None"
proof (induction pool)
  case Nil
  then show ?case by simp
next
  case (Cons a pool)
  then show ?case
    by (auto simp: Let_def charge_def expired_def split: if_splits sum.splits prod.splits)
qed

lemma acquire_token:
  assumes "fst (acquire ex now pool) = Inr c"
  shows "accessToken c \<noteq> None"
proof (cases "fst (scan ex now pool)")
  case (Some d)
  then have "c = d"
    using assms by (auto simp: acquire_def split: prod.splits)
  then show ?thesis using scan_token [of ex now pool d] Some by simp
next
  case None
  obtain pool' where sc: "scan ex now pool = (None, pool')"
    using None by (cases "scan ex now pool") auto
  show ?thesis
    using assms sc
    by (auto simp: acquire_def Let_def charge_def
             split: option.splits sum.splits prod.splits if_splits)
qed

lemma acquire_failed_exchange:
  "acquire (\<lambda>cfg. Inl ProviderUnavailable) 0 (NewTokenManager (\<lambda>cfg. 5) [cfg\<lparr>Disabled := False\<rparr>])
     = (Inl NoCredentialsAvailable,
        [\<lparr>credConfig = cfg\<lparr>Disabled := False\<rparr>, accessToken = None, expiry = 0,
          remainingUsage = 5, lastError = Some ProviderUnavailable, lastRefresh = 0\<rparr>])"
  by (simp add: acquire_def NewTokenManager_def freshCredential_def eligible_def expired_def
        leastRecentlyRefreshedExpired_def)

lemma NewTokenManager_configs: "map credConfig (NewTokenManager quota cfgs) = cfgs"
  by (induction cfgs) (simp_all add: NewTokenManager_def freshCredential_def)

lemma extractFrames_append: "extractFrames F (buf @ nxt) = resume F nxt (extractFrames F buf)"
proof (induction F buf rule: extractFrames.induct)
  case (1 F buf)
  show ?case
  proof (cases "length buf < prefixWidth F")
    case True
    then show ?thesis
      by (simp add: extractFrames.simps [of F buf] resume_def feed_def)
  next
    case short: False
    define total where "total = bigEndian (take (prefixWidth F) buf)"
    have pre: "take (prefixWidth F) (buf @ nxt) = take (prefixWidth F) buf"
      using short by simp
    show ?thesis
    proof (cases "total = 0")
      case True
      then show ?thesis
        using short pre
        by (simp add: extractFrames.simps [of F buf] extractFrames.simps [of F "buf @ nxt"]
              resume_def feed_def total_def)
    next
      case nz: False
      show ?thesis
      proof (cases "length buf < total")
        case True
        then show ?thesis
          using short nz
          by (simp add: extractFrames.simps [of F buf] resume_def feed_def total_def Let_def)
      next
        case full: False
        have tk: "take total (buf @ nxt) = take total buf"
          and dr: "drop total (buf @ nxt) = drop total buf @ nxt"
          using full by simp_all
        show ?thesis
        proof (cases "decodeFrame F (take total buf)")
          case None
          then show ?thesis
            using short nz full pre tk
            by (simp add: extractFrames.simps [of F buf] extractFrames.simps [of F "buf @ nxt"]
                  resume_def feed_def total_def [symmetric] Let_def)
        next
          case (Some frame)
          have IH: "extractFrames F (drop total buf @ nxt)
                      = resume F nxt (extractFrames F (drop total buf))"
            by (rule "1.IH"(1) [OF short total_def nz full Some])
          show ?thesis
            using short nz full pre tk dr Some IH
            by (simp add: extractFrames.simps [of F buf] extractFrames.simps [of F "buf @ nxt"]
                  resume_def total_def [symmetric] Let_def)
        qed
      qed
    qed
  qed
qed

lemma feedAll_Corrupted: "feedAll F chunks Corrupted = ([], Corrupted)"
  by (induction chunks) (simp_all add: feed_def)

lemma feedAll_resume:
  "(fst (extractFrames F b) @ fst (feedAll F chunks (snd (extractFrames F b))),
    snd (feedAll F chunks (snd (extractFrames F b))))
   = extractFrames F (b @ concat chunks)"
proof (induction chunks arbitrary: b)
  case Nil
  show ?case by simp
next
  case (Cons chunk chunks)
  have step: "extractFrames F (b @ chunk) = resume F chunk (extractFrames F b)"
    by (rule extractFrames_append)
  have "extractFrames F ((b @ chunk) @ concat chunks)
          = (fst (extractFrames F (b @ chunk))
               @ fst (feedAll F chunks (snd (extractFrames F (b @ chunk)))),
             snd (feedAll F chunks (snd (extractFrames F (b @ chunk)))))"
    using Cons.IH [of "b @ chunk"] by simp
  then show ?case
    unfolding step by (simp add: resume_def)
qed

lemma extractFrames_empty:
  "0 < prefixWidth F \<Longrightarrow> extractFrames F [] = ([], Buffering [])"
  by (simp add: extractFrames.simps [of F "[]"])

lemma extractFrames_no_prefix:
  "prefixWidth F = 0 \<Longrightarrow> extractFrames F buf = ([], Corrupted)"
  by (simp add: extractFrames.simps [of F buf] bigEndian_def)

lemma feedAll_no_prefix:
  assumes "prefixWidth F = 0"
  shows "fst (feedAll F chunks st) = []"
proof (cases chunks)
  case Nil
  then show ?thesis by simp
next
  case (Cons chunk rest)
  have "feed F chunk st = ([], Corrupted)"
    using assms by (cases st) (simp_all add: feed_def extractFrames_no_prefix)
  then show ?thesis using Cons by (simp add: feedAll_Corrupted)
qed

lemma feedAll_whole:
  assumes "0 < prefixWidth F"
  shows "feedAll F chunks (Buffering []) = extractFrames F (concat chunks)"
  using feedAll_resume [of F "[]" chunks] extractFrames_empty [OF assms] by simp

lemma feedAll_frames:
  "fst (feedAll F chunks (Buffering [])) = fst (extractFrames F (concat chunks))"
proof (cases "prefixWidth F = 0")
  case True
  then show ?thesis by (simp add: feedAll_no_prefix extractFrames_no_prefix)
next
  case False
  then show ?thesis by (simp add: feedAll_whole)
qed

section \<open>Admission to the pool\<close>

text \<open>
  C1. Every credential admitted is admissible (non-empty refresh token; for IdC, non-empty
  client id and client secret): every config that \<^verbatim>\<open>processConfigs\<close> keeps, every config
  a successful load returns, every config of a service that \<^verbatim>\<open>NewAuthService\<close> builds,
  and every config of a service after \<^verbatim>\<open>AddConfig\<close> when those before were. A config
  that is not admissible is dropped by \<^verbatim>\<open>processConfigs\<close> wherever it stands in the
  list, and \<^verbatim>\<open>AddConfig\<close> answers it with an error and leaves the service as it was.
\<close>

theorem admitted_credentials_admissible:
  "(\<forall>c \<in> set (processConfigs cs). admissible c)
   \<and> (\<forall>cfgs. loadConfigs uA uS getenv fs = Inr cfgs \<longrightarrow> (\<forall>c \<in> set cfgs. admissible c))
   \<and> (\<forall>svc. NewAuthService newTM warmup uA uS getenv fs = Inr svc
          \<longrightarrow> (\<forall>c \<in> set (configs svc). admissible c))
   \<and> ((\<forall>c \<in> set (configs as). admissible c)
          \<longrightarrow> (\<forall>c \<in> set (configs (snd (AddConfig tmAdd config as))). admissible c))
   \<and> (\<not> admissible config
          \<longrightarrow> processConfigs (pre @ config # post) = processConfigs (pre @ post)
            \<and> fst (AddConfig tmAdd config as) \<noteq> None
            \<and> snd (AddConfig tmAdd config as) = as)"
proof -
  have load: "\<forall>cfgs. loadConfigs uA uS getenv fs = Inr cfgs \<longrightarrow> (\<forall>c \<in> set cfgs. admissible c)"
    using loadConfigs_admissible by blast
  have new: "\<forall>svc. NewAuthService newTM warmup uA uS getenv fs = Inr svc
               \<longrightarrow> (\<forall>c \<in> set (configs svc). admissible c)"
    using load by (auto simp: NewAuthService_def split: sum.splits if_splits)
  have add: "(\<forall>c \<in> set (configs as). admissible c)
               \<longrightarrow> (\<forall>c \<in> set (configs (snd (AddConfig tmAdd config as))). admissible c)"
  proof (cases "fst (AddConfig tmAdd config as) = None")
    case True
    then have "admissible config" using AddConfig_rejects [of tmAdd config as] by simp
    then show ?thesis
      using AddConfig_success_configs [OF True]
      by (auto simp: admissible_setDefaultAuthType)
  next
    case False
    then show ?thesis using AddConfig_error_unchanged [of tmAdd config as] by simp
  qed
  have drop: "\<not> admissible config
               \<longrightarrow> processConfigs (pre @ config # post) = processConfigs (pre @ post)"
    by (simp add: processConfigs_filter)
  have rej: "\<not> admissible config
               \<longrightarrow> fst (AddConfig tmAdd config as) \<noteq> None
                 \<and> snd (AddConfig tmAdd config as) = as"
    using AddConfig_rejects [of tmAdd config as] AddConfig_error_unchanged [of tmAdd config as]
    by blast
  show ?thesis
    using processConfigs_admissible load new add drop rej by blast
qed

theorem admitted_credentials_witness:
  "processConfigs
     [\<lparr>AuthType = ''IdC'', RefreshToken = ''r1'', ClientID = [], ClientSecret = ''s'',
       Disabled = False\<rparr>,
      \<lparr>AuthType = [], RefreshToken = ''r2'', ClientID = [], ClientSecret = [],
       Disabled = False\<rparr>]
   = [\<lparr>AuthType = ''Social'', RefreshToken = ''r2'', ClientID = [], ClientSecret = [],
       Disabled = False\<rparr>]
   \<and> admissible \<lparr>AuthType = ''Social'', RefreshToken = ''r2'', ClientID = [],
                  ClientSecret = [], Disabled = False\<rparr>
   \<and> \<not> admissible \<lparr>AuthType = ''IdC'', RefreshToken = ''r1'', ClientID = [],
                    ClientSecret = ''s'', Disabled = False\<rparr>
   \<and> fst (AddConfig (\<lambda>c n. Suc n)
           \<lparr>AuthType = ''IdC'', RefreshToken = ''r1'', ClientID = [], ClientSecret = ''s'',
            Disabled = False\<rparr>
           \<lparr>tokenManager = 0, configs = []\<rparr>) = Some IdCMissingClient
   \<and> snd (AddConfig (\<lambda>c n. Suc n)
           \<lparr>AuthType = ''IdC'', RefreshToken = ''r1'', ClientID = [], ClientSecret = ''s'',
            Disabled = False\<rparr>
           \<lparr>tokenManager = 0, configs = []\<rparr>) = \<lparr>tokenManager = 0, configs = []\<rparr>"
  using admitted_credentials_admissible
    [of "[\<lparr>AuthType = ''IdC'', RefreshToken = ''r1'', ClientID = [], ClientSecret = ''s'',
           Disabled = False\<rparr>,
          \<lparr>AuthType = [], RefreshToken = ''r2'', ClientID = [], ClientSecret = [],
           Disabled = False\<rparr>]"
        "\<lambda>s. None" "\<lambda>s. None" "\<lambda>v. []" "\<lambda>p. None" "\<lambda>cs. 0" "\<lambda>n. n"
        "\<lparr>tokenManager = 0, configs = []\<rparr>" "\<lambda>c n. Suc n"
        "\<lparr>AuthType = ''IdC'', RefreshToken = ''r1'', ClientID = [], ClientSecret = ''s'',
          Disabled = False\<rparr>"
        "[]" "[]"]
  by (simp add: admissible_def AuthMethodIdC_def AuthMethodSocial_def setDefaultAuthType_def
        AddConfig_def)

section \<open>Adding a credential\<close>

text \<open>
  C5, as the claim states it, at one input: a config with a refresh token and an empty auth
  type is accepted, and the list after the call does not end with the config as submitted
  (the entry appended has the auth type Social).
\<close>

theorem AddConfig_appends_submitted_counterexample:
  "fst (AddConfig (\<lambda>c n. Suc n)
         \<lparr>AuthType = [], RefreshToken = ''t'', ClientID = [], ClientSecret = [],
          Disabled = False\<rparr>
         \<lparr>tokenManager = 0, configs = []\<rparr>) = None
   \<and> configs (snd (AddConfig (\<lambda>c n. Suc n)
         \<lparr>AuthType = [], RefreshToken = ''t'', ClientID = [], ClientSecret = [],
          Disabled = False\<rparr>
         \<lparr>tokenManager = 0, configs = []\<rparr>))
     \<noteq> configs \<lparr>tokenManager = 0::nat, configs = []\<rparr>
         @ [\<lparr>AuthType = [], RefreshToken = ''t'', ClientID = [], ClientSecret = [],
             Disabled = False\<rparr>]
   \<and> configs (snd (AddConfig (\<lambda>c n. Suc n)
         \<lparr>AuthType = [], RefreshToken = ''t'', ClientID = [], ClientSecret = [],
          Disabled = False\<rparr>
         \<lparr>tokenManager = 0, configs = []\<rparr>))
     = [\<lparr>AuthType = ''Social'', RefreshToken = ''t'', ClientID = [], ClientSecret = [],
         Disabled = False\<rparr>]"
  by (simp add: AddConfig_def setDefaultAuthType_def AuthMethodSocial_def AuthMethodIdC_def)

text \<open>
  C5, amended. \<^verbatim>\<open>AddConfig\<close> returns an error exactly when the submitted config's refresh
  token is empty, or its auth type is IdC with an empty client id or client secret; the
  error is one of the two invalid-config errors and the service is left as it was. On
  success the list grows at its end by the config in which an empty auth type has been
  replaced by Social.
\<close>

theorem AddConfig_error_iff:
  "(fst (AddConfig tmAdd config as) \<noteq> None
      \<longleftrightarrow> RefreshToken config = []
          \<or> (AuthType config = ''IdC'' \<and> (ClientID config = [] \<or> ClientSecret config = [])))
   \<and> (fst (AddConfig tmAdd config as) \<noteq> None
      \<longrightarrow> (fst (AddConfig tmAdd config as) = Some EmptyRefreshToken
           \<or> fst (AddConfig tmAdd config as) = Some IdCMissingClient)
        \<and> snd (AddConfig tmAdd config as) = as)
   \<and> (fst (AddConfig tmAdd config as) = None
      \<longrightarrow> configs (snd (AddConfig tmAdd config as))
          = configs as
            @ [config\<lparr>AuthType := (if AuthType config = [] then ''Social''
                                     else AuthType config)\<rparr>])"
proof -
  have iff: "fst (AddConfig tmAdd config as) \<noteq> None
      \<longleftrightarrow> RefreshToken config = []
          \<or> (AuthType config = ''IdC'' \<and> (ClientID config = [] \<or> ClientSecret config = []))"
    using AddConfig_rejects [of tmAdd config as]
    by (auto simp: admissible_def AuthMethodIdC_def)
  have kind: "fst (AddConfig tmAdd config as) \<noteq> None
      \<longrightarrow> (fst (AddConfig tmAdd config as) = Some EmptyRefreshToken
           \<or> fst (AddConfig tmAdd config as) = Some IdCMissingClient)"
    by (simp add: AddConfig_def Let_def)
  have same: "fst (AddConfig tmAdd config as) \<noteq> None \<longrightarrow> snd (AddConfig tmAdd config as) = as"
    using AddConfig_error_unchanged [of tmAdd config as] by blast
  have app: "fst (AddConfig tmAdd config as) = None
      \<longrightarrow> configs (snd (AddConfig tmAdd config as))
          = configs as
            @ [config\<lparr>AuthType := (if AuthType config = [] then ''Social''
                                     else AuthType config)\<rparr>]"
    using AddConfig_success_configs [of tmAdd config as]
    by (auto simp: setDefaultAuthType_def AuthMethodSocial_def)
  show ?thesis using iff kind same app by blast
qed

theorem AddConfig_error_witness:
  "fst (AddConfig (\<lambda>c n. Suc n)
         \<lparr>AuthType = ''IdC'', RefreshToken = ''t'', ClientID = ''id'', ClientSecret = [],
          Disabled = False\<rparr>
         \<lparr>tokenManager = 0, configs = []\<rparr>) = Some IdCMissingClient
   \<and> snd (AddConfig (\<lambda>c n. Suc n)
         \<lparr>AuthType = ''IdC'', RefreshToken = ''t'', ClientID = ''id'', ClientSecret = [],
          Disabled = False\<rparr>
         \<lparr>tokenManager = 0, configs = []\<rparr>) = \<lparr>tokenManager = 0, configs = []\<rparr>
   \<and> fst (AddConfig (\<lambda>c n. Suc n)
         \<lparr>AuthType = ''IdC'', RefreshToken = ''t'', ClientID = ''id'', ClientSecret = ''s'',
          Disabled = False\<rparr>
         \<lparr>tokenManager = 0, configs = []\<rparr>) = None
   \<and> configs (snd (AddConfig (\<lambda>c n. Suc n)
         \<lparr>AuthType = ''IdC'', RefreshToken = ''t'', ClientID = ''id'', ClientSecret = ''s'',
          Disabled = False\<rparr>
         \<lparr>tokenManager = 0, configs = []\<rparr>))
     = [\<lparr>AuthType = ''IdC'', RefreshToken = ''t'', ClientID = ''id'', ClientSecret = ''s'',
         Disabled = False\<rparr>]"
  using AddConfig_error_iff
    [of "\<lambda>c n. Suc n"
        "\<lparr>AuthType = ''IdC'', RefreshToken = ''t'', ClientID = ''id'', ClientSecret = [],
          Disabled = False\<rparr>"
        "\<lparr>tokenManager = 0, configs = []\<rparr>"]
    AddConfig_error_iff
    [of "\<lambda>c n. Suc n"
        "\<lparr>AuthType = ''IdC'', RefreshToken = ''t'', ClientID = ''id'', ClientSecret = ''s'',
          Disabled = False\<rparr>"
        "\<lparr>tokenManager = 0, configs = []\<rparr>"]
  by (simp add: AddConfig_def setDefaultAuthType_def AuthMethodSocial_def AuthMethodIdC_def)

section \<open>Parsing a configuration input\<close>

text \<open>
  C9. \<^verbatim>\<open>parseJSONConfig\<close> returns the array when the input unmarshals as an array of
  configs; the one-element list of the object when it unmarshals as a single config and
  not as an array; and the invalid-JSON error when it unmarshals as neither.
\<close>

theorem parseJSONConfig_cases:
  "(\<forall>cfgs. uA s = Some cfgs \<longrightarrow> parseJSONConfig uA uS s = Inr cfgs)
   \<and> (\<forall>single. uA s = None \<and> uS s = Some single
         \<longrightarrow> parseJSONConfig uA uS s = Inr [single])
   \<and> (uA s = None \<and> uS s = None \<longrightarrow> parseJSONConfig uA uS s = Inl InvalidJSON)"
  by (simp add: parseJSONConfig_def)

theorem parseJSONConfig_cases_witness:
  "parseJSONConfig
     (\<lambda>s. if s = ''[]'' then Some [] else None)
     (\<lambda>s. if s = ''{}'' then Some \<lparr>AuthType = [], RefreshToken = [], ClientID = [],
                                    ClientSecret = [], Disabled = False\<rparr> else None)
     ''{}''
   = Inr [\<lparr>AuthType = [], RefreshToken = [], ClientID = [], ClientSecret = [],
           Disabled = False\<rparr>]
   \<and> parseJSONConfig
     (\<lambda>s. if s = ''[]'' then Some [] else None)
     (\<lambda>s. if s = ''{}'' then Some \<lparr>AuthType = [], RefreshToken = [], ClientID = [],
                                    ClientSecret = [], Disabled = False\<rparr> else None)
     ''{''
   = Inl InvalidJSON"
  using parseJSONConfig_cases
    [of "\<lambda>s. if s = ''[]'' then Some [] else None" "''{}''"
        "\<lambda>s. if s = ''{}'' then Some \<lparr>AuthType = [], RefreshToken = [], ClientID = [],
                                        ClientSecret = [], Disabled = False\<rparr> else None"]
    parseJSONConfig_cases
    [of "\<lambda>s. if s = ''[]'' then Some [] else None" "''{''"
        "\<lambda>s. if s = ''{}'' then Some \<lparr>AuthType = [], RefreshToken = [], ClientID = [],
                                        ClientSecret = [], Disabled = False\<rparr> else None"]
  by simp

section \<open>Malformed configuration inputs\<close>

text \<open>
  C7, as the claim states it, at one input: \<^verbatim>\<open>KIRO_AUTH_TOKEN\<close> holds a malformed text
  that names no file, and the default config file exists and holds a well-formed array of
  one config. The loader takes the file, which comes before the value of the variable in
  its order of sources, and never parses the malformed text: loading succeeds with the
  file's config and \<^verbatim>\<open>NewAuthService\<close> returns a service.
\<close>

theorem malformed_env_shadowed_counterexample:
  "malformed
     (\<lambda>s. if s = ''[..]''
           then Some [\<lparr>AuthType = ''Social'', RefreshToken = ''t'', ClientID = [],
                       ClientSecret = [], Disabled = False\<rparr>]
           else None)
     (\<lambda>s. None) ''{''
   \<and> loadConfigsWithPath
       (\<lambda>s. if s = ''[..]''
             then Some [\<lparr>AuthType = ''Social'', RefreshToken = ''t'', ClientID = [],
                         ClientSecret = [], Disabled = False\<rparr>]
             else None)
       (\<lambda>s. None)
       (\<lambda>v. if v = ''KIRO_AUTH_TOKEN'' then ''{'' else [])
       ((\<lambda>p. None)(''auth_config.json'' \<mapsto> RegularFile True 384 ''[..]''))
     = (Inr [\<lparr>AuthType = ''Social'', RefreshToken = ''t'', ClientID = [],
               ClientSecret = [], Disabled = False\<rparr>],
        ''auth_config.json'')
   \<and> NewAuthService (\<lambda>cs. length cs) (\<lambda>n. n)
       (\<lambda>s. if s = ''[..]''
             then Some [\<lparr>AuthType = ''Social'', RefreshToken = ''t'', ClientID = [],
                         ClientSecret = [], Disabled = False\<rparr>]
             else None)
       (\<lambda>s. None)
       (\<lambda>v. if v = ''KIRO_AUTH_TOKEN'' then ''{'' else [])
       ((\<lambda>p. None)(''auth_config.json'' \<mapsto> RegularFile True 384 ''[..]''))
     = Inr \<lparr>tokenManager = 1,
             configs = [\<lparr>AuthType = ''Social'', RefreshToken = ''t'', ClientID = [],
                         ClientSecret = [], Disabled = False\<rparr>]\<rparr>"
  by (simp add: malformed_def NewAuthService_def loadConfigs_def loadConfigsWithPath_def
        loadConfigsFromFile_def parseJSONConfig_def statIsFile_def ReadFile_def
        defaultConfigFile_def setDefaultAuthType_def AuthMethodIdC_def Let_def)

text \<open>
  C7, amended. A malformed input (it unmarshals neither as an array of configs nor as a
  single config) that the loader reads makes loading return an error, and
  \<^verbatim>\<open>NewAuthService\<close> return that error instead of a service. The loader reads one input,
  the first of: the content of the file that \<^verbatim>\<open>KIRO_AUTH_TOKEN\<close> names; the content of the
  default config file, when \<^verbatim>\<open>KIRO_AUTH_TOKEN\<close> is empty or names no file; the non-empty
  value of \<^verbatim>\<open>KIRO_AUTH_TOKEN\<close> itself, when it names no file and the default config file
  does not exist. A value of \<^verbatim>\<open>KIRO_AUTH_TOKEN\<close> that an existing file takes the place of
  is not read, and the theorem says nothing of it.
\<close>

theorem malformed_input_fails_load:
  "malformed uA uS s \<longrightarrow>
     parseJSONConfig uA uS s = Inl InvalidJSON
     \<and> (ReadFile fs path = Some s
          \<longrightarrow> loadConfigsFromFile uA uS fs path = Inl (ParseFileFailed InvalidJSON path))
     \<and> (getenv ''KIRO_AUTH_TOKEN'' \<noteq> [] \<and> ReadFile fs (getenv ''KIRO_AUTH_TOKEN'') = Some s
          \<longrightarrow> loadConfigsWithPath uA uS getenv fs
              = (Inl (ParseFileFailed InvalidJSON (getenv ''KIRO_AUTH_TOKEN'')),
                 getenv ''KIRO_AUTH_TOKEN'')
            \<and> NewAuthService newTM warmup uA uS getenv fs
              = Inl (LoadConfigsFailed
                      (ParseFileFailed InvalidJSON (getenv ''KIRO_AUTH_TOKEN''))))
     \<and> (\<not> (getenv ''KIRO_AUTH_TOKEN'' \<noteq> [] \<and> statIsFile fs (getenv ''KIRO_AUTH_TOKEN''))
        \<and> ReadFile fs defaultConfigFile = Some s
          \<longrightarrow> loadConfigsWithPath uA uS getenv fs
              = (Inl (ParseFileFailed InvalidJSON defaultConfigFile), defaultConfigFile)
            \<and> NewAuthService newTM warmup uA uS getenv fs
              = Inl (LoadConfigsFailed (ParseFileFailed InvalidJSON defaultConfigFile)))
     \<and> (getenv ''KIRO_AUTH_TOKEN'' = s \<and> s \<noteq> [] \<and> \<not> statIsFile fs s
        \<and> \<not> statIsFile fs defaultConfigFile
          \<longrightarrow> loadConfigsWithPath uA uS getenv fs
              = (Inl (ParseEnvFailed InvalidJSON), defaultConfigFile)
            \<and> NewAuthService newTM warmup uA uS getenv fs
              = Inl (LoadConfigsFailed (ParseEnvFailed InvalidJSON)))"
proof
  assume m: "malformed uA uS s"
  have parse: "parseJSONConfig uA uS s = Inl InvalidJSON"
    using m by (simp add: malformed_def parseJSONConfig_def)
  have fromfile: "loadConfigsFromFile uA uS fs p = Inl (ParseFileFailed InvalidJSON p)"
    if "ReadFile fs p = Some s" for p
    using that parse by (simp add: loadConfigsFromFile_def)
  have isfile: "statIsFile fs p" if "ReadFile fs p = Some s" for p
    using that
    by (auto simp: ReadFile_def statIsFile_def split: option.splits fsnode.splits bool.splits)
  have svc: "NewAuthService newTM warmup uA uS getenv fs = Inl (LoadConfigsFailed e)"
    if "loadConfigsWithPath uA uS getenv fs = (Inl e, p)" for e p
    using that by (simp add: NewAuthService_def loadConfigs_def)
  have c1: "loadConfigsWithPath uA uS getenv fs
              = (Inl (ParseFileFailed InvalidJSON (getenv ''KIRO_AUTH_TOKEN'')),
                 getenv ''KIRO_AUTH_TOKEN'')"
    if "getenv ''KIRO_AUTH_TOKEN'' \<noteq> []" "ReadFile fs (getenv ''KIRO_AUTH_TOKEN'') = Some s"
    using that fromfile [OF that(2)] isfile [OF that(2)]
    by (simp add: loadConfigsWithPath_def Let_def)
  have c2: "loadConfigsWithPath uA uS getenv fs
              = (Inl (ParseFileFailed InvalidJSON defaultConfigFile), defaultConfigFile)"
    if "\<not> (getenv ''KIRO_AUTH_TOKEN'' \<noteq> [] \<and> statIsFile fs (getenv ''KIRO_AUTH_TOKEN''))"
       "ReadFile fs defaultConfigFile = Some s"
    using that(1) fromfile [OF that(2)] isfile [OF that(2)]
    by (auto simp: loadConfigsWithPath_def Let_def)
  have c3: "loadConfigsWithPath uA uS getenv fs = (Inl (ParseEnvFailed InvalidJSON), defaultConfigFile)"
    if "getenv ''KIRO_AUTH_TOKEN'' = s" "s \<noteq> []" "\<not> statIsFile fs s"
       "\<not> statIsFile fs defaultConfigFile"
    using that parse by (simp add: loadConfigsWithPath_def Let_def)
  show "parseJSONConfig uA uS s = Inl InvalidJSON
     \<and> (ReadFile fs path = Some s
          \<longrightarrow> loadConfigsFromFile uA uS fs path = Inl (ParseFileFailed InvalidJSON path))
     \<and> (getenv ''KIRO_AUTH_TOKEN'' \<noteq> [] \<and> ReadFile fs (getenv ''KIRO_AUTH_TOKEN'') = Some s
          \<longrightarrow> loadConfigsWithPath uA uS getenv fs
              = (Inl (ParseFileFailed InvalidJSON (getenv ''KIRO_AUTH_TOKEN'')),
                 getenv ''KIRO_AUTH_TOKEN'')
            \<and> NewAuthService newTM warmup uA uS getenv fs
              = Inl (LoadConfigsFailed
                      (ParseFileFailed InvalidJSON (getenv ''KIRO_AUTH_TOKEN''))))
     \<and> (\<not> (getenv ''KIRO_AUTH_TOKEN'' \<noteq> [] \<and> statIsFile fs (getenv ''KIRO_AUTH_TOKEN''))
        \<and> ReadFile fs defaultConfigFile = Some s
          \<longrightarrow> loadConfigsWithPath uA uS getenv fs
              = (Inl (ParseFileFailed InvalidJSON defaultConfigFile), defaultConfigFile)
            \<and> NewAuthService newTM warmup uA uS getenv fs
              = Inl (LoadConfigsFailed (ParseFileFailed InvalidJSON defaultConfigFile)))
     \<and> (getenv ''KIRO_AUTH_TOKEN'' = s \<and> s \<noteq> [] \<and> \<not> statIsFile fs s
        \<and> \<not> statIsFile fs defaultConfigFile
          \<longrightarrow> loadConfigsWithPath uA uS getenv fs
              = (Inl (ParseEnvFailed InvalidJSON), defaultConfigFile)
            \<and> NewAuthService newTM warmup uA uS getenv fs
              = Inl (LoadConfigsFailed (ParseEnvFailed InvalidJSON)))"
    using parse fromfile c1 c2 c3 svc by blast
qed

theorem malformed_input_fails_load_witness:
  "malformed (\<lambda>s. if s = ''[]'' then Some [] else None) (\<lambda>s. None) ''{''
   \<and> loadConfigsWithPath (\<lambda>s. if s = ''[]'' then Some [] else None) (\<lambda>s. None)
        (\<lambda>v. if v = ''KIRO_AUTH_TOKEN'' then ''{'' else [])
        (\<lambda>p. None)
     = (Inl (ParseEnvFailed InvalidJSON), ''auth_config.json'')
   \<and> loadConfigsWithPath (\<lambda>s. if s = ''[]'' then Some [] else None) (\<lambda>s. None)
        (\<lambda>v. [])
        ((\<lambda>p. None)(''auth_config.json'' \<mapsto> RegularFile True 384 ''{''))
     = (Inl (ParseFileFailed InvalidJSON ''auth_config.json''), ''auth_config.json'')
   \<and> NewAuthService (\<lambda>cs. length cs) (\<lambda>n. n)
        (\<lambda>s. if s = ''[]'' then Some [] else None) (\<lambda>s. None)
        (\<lambda>v. [])
        ((\<lambda>p. None)(''auth_config.json'' \<mapsto> RegularFile True 384 ''{''))
     = Inl (LoadConfigsFailed (ParseFileFailed InvalidJSON ''auth_config.json''))"
  using malformed_input_fails_load
    [of "\<lambda>s. if s = ''[]'' then Some [] else None" "\<lambda>s. None" "''{''"
        "\<lambda>p. None" "[]"
        "\<lambda>v. if v = ''KIRO_AUTH_TOKEN'' then ''{'' else []"
        "\<lambda>cs. length cs" "\<lambda>n. n"]
    malformed_input_fails_load
    [of "\<lambda>s. if s = ''[]'' then Some [] else None" "\<lambda>s. None" "''{''"
        "(\<lambda>p. None)(''auth_config.json'' \<mapsto> RegularFile True 384 ''{'')" "[]"
        "\<lambda>v. []"
        "\<lambda>cs. length cs" "\<lambda>n. n"]
  by (simp add: malformed_def statIsFile_def ReadFile_def defaultConfigFile_def)

section \<open>Persistence on add and remove\<close>

text \<open>
  C2. The add and the remove operation write nothing: the handlers of both routes, with
  \<^verbatim>\<open>AddConfig\<close> and \<^verbatim>\<open>RemoveConfig\<close> below them, return the files they were given, for
  every request and every state. At a concrete request on an empty pool with no config
  file, the add succeeds with count 1 and the config file still does not exist, and
  removing that credential again succeeds with count 0 and the file still does not exist;
  \<^verbatim>\<open>SaveConfigsToFile\<close> on the same list would have created it with permission
  \<^verbatim>\<open>0o600\<close>.
\<close>

theorem add_and_remove_write_no_file:
  "files (snd (handleAddToken tmAdd body st)) = files st
   \<and> files (snd (handleDeleteToken atoi newTM indexStr st)) = files st
   \<and> handleAddToken (\<lambda>c n. Suc n)
        (Some \<lparr>reqAuthType = ''Social'', reqRefreshToken = ''t'', reqClientID = [],
               reqClientSecret = []\<rparr>)
        \<lparr>authService = \<lparr>tokenManager = 0, configs = []\<rparr>, files = (\<lambda>p. None)\<rparr>
     = ((200, \<lparr>Success = True, Message = Some TokenAdded, Error = None, Count = 1\<rparr>),
        \<lparr>authService =
           \<lparr>tokenManager = 1,
            configs = [\<lparr>AuthType = ''Social'', RefreshToken = ''t'', ClientID = [],
                        ClientSecret = [], Disabled = False\<rparr>]\<rparr>,
         files = (\<lambda>p. None)\<rparr>)
   \<and> handleDeleteToken (\<lambda>s. if s = ''0'' then Some 0 else None) (\<lambda>cs. length cs) ''0''
        \<lparr>authService =
           \<lparr>tokenManager = 1,
            configs = [\<lparr>AuthType = ''Social'', RefreshToken = ''t'', ClientID = [],
                        ClientSecret = [], Disabled = False\<rparr>]\<rparr>,
         files = (\<lambda>p. None)\<rparr>
     = ((200, \<lparr>Success = True, Message = Some TokenDeleted, Error = None, Count = 0\<rparr>),
        \<lparr>authService = \<lparr>tokenManager = 0, configs = []\<rparr>, files = (\<lambda>p. None)\<rparr>)
   \<and> snd (SaveConfigsToFile (\<lambda>cs. Some ''[..]'') ''auth_config.json''
            [\<lparr>AuthType = ''Social'', RefreshToken = ''t'', ClientID = [],
              ClientSecret = [], Disabled = False\<rparr>] (\<lambda>p. None)) ''auth_config.json''
     = Some (RegularFile True 384 ''[..]'')"
proof -
  have a: "files (snd (handleAddToken tmAdd body st)) = files st"
    by (simp add: handleAddToken_def Let_def split: option.splits)
  have d: "files (snd (handleDeleteToken atoi newTM indexStr st)) = files st"
    by (simp add: handleDeleteToken_def Let_def split: option.splits)
  have ea: "handleAddToken (\<lambda>c n. Suc n)
        (Some \<lparr>reqAuthType = ''Social'', reqRefreshToken = ''t'', reqClientID = [],
               reqClientSecret = []\<rparr>)
        \<lparr>authService = \<lparr>tokenManager = 0, configs = []\<rparr>, files = (\<lambda>p. None)\<rparr>
     = ((200, \<lparr>Success = True, Message = Some TokenAdded, Error = None, Count = 1\<rparr>),
        \<lparr>authService =
           \<lparr>tokenManager = 1,
            configs = [\<lparr>AuthType = ''Social'', RefreshToken = ''t'', ClientID = [],
                        ClientSecret = [], Disabled = False\<rparr>]\<rparr>,
         files = (\<lambda>p. None)\<rparr>)"
    by (simp add: handleAddToken_def AddConfig_def setDefaultAuthType_def AuthMethodIdC_def
          GetConfigCount_def StatusOK_def Let_def)
  have ed: "handleDeleteToken (\<lambda>s. if s = ''0'' then Some 0 else None) (\<lambda>cs. length cs) ''0''
        \<lparr>authService =
           \<lparr>tokenManager = 1,
            configs = [\<lparr>AuthType = ''Social'', RefreshToken = ''t'', ClientID = [],
                        ClientSecret = [], Disabled = False\<rparr>]\<rparr>,
         files = (\<lambda>p. None)\<rparr>
     = ((200, \<lparr>Success = True, Message = Some TokenDeleted, Error = None, Count = 0\<rparr>),
        \<lparr>authService = \<lparr>tokenManager = 0, configs = []\<rparr>, files = (\<lambda>p. None)\<rparr>)"
    by (simp add: handleDeleteToken_def RemoveConfig_def GetConfigCount_def StatusOK_def
          Let_def)
  have sv: "snd (SaveConfigsToFile (\<lambda>cs. Some ''[..]'') ''auth_config.json''
            [\<lparr>AuthType = ''Social'', RefreshToken = ''t'', ClientID = [],
              ClientSecret = [], Disabled = False\<rparr>] (\<lambda>p. None)) ''auth_config.json''
     = Some (RegularFile True 384 ''[..]'')"
    by (simp add: SaveConfigsToFile_def WriteFile_def ownerOnly_def)
  show ?thesis using a d ea ed sv by blast
qed

section \<open>Removal shifts the later credentials\<close>

text \<open>
  C3. Removing the credential at a valid index \<open>k\<close> succeeds and leaves the list without
  its \<open>k\<close>-th element: the credentials before \<open>k\<close> keep their index, every credential
  formerly at an index above \<open>k\<close> is now at that index minus one, so the relative order is
  kept. The token manager is rebuilt from the shortened list, and an acquisition made
  right after the removal returns, if anything, a credential found in the list at an
  index other than \<open>k\<close>; when no remaining credential has the refresh token of the removed
  one (the refresh token is a credential's identity), the credential returned is not the
  removed one.
\<close>

theorem RemoveConfig_shifts_down:
  assumes "0 \<le> k" and "k < int (length (configs as))"
  shows
    "fst (RemoveConfig (NewTokenManager quota) k as) = None
     \<and> configs (snd (RemoveConfig (NewTokenManager quota) k as))
         = take (nat k) (configs as) @ drop (nat k + 1) (configs as)
     \<and> length (configs (snd (RemoveConfig (NewTokenManager quota) k as))) + 1
         = length (configs as)
     \<and> (\<forall>j. j < nat k
           \<longrightarrow> configs (snd (RemoveConfig (NewTokenManager quota) k as)) ! j = configs as ! j)
     \<and> (\<forall>j. nat k < j \<and> j < length (configs as)
           \<longrightarrow> configs (snd (RemoveConfig (NewTokenManager quota) k as)) ! (j - 1)
               = configs as ! j)
     \<and> (\<forall>c. fst (GetToken ex now (snd (RemoveConfig (NewTokenManager quota) k as))) = Inr c
           \<longrightarrow> (\<exists>j. j < length (configs as) \<and> j \<noteq> nat k \<and> credConfig c = configs as ! j)
             \<and> (RefreshToken (configs as ! nat k)
                   \<notin> RefreshToken ` set (configs (snd (RemoveConfig (NewTokenManager quota) k as)))
                 \<longrightarrow> RefreshToken (credConfig c) \<noteq> RefreshToken (configs as ! nat k)))"
proof -
  define cs where "cs = configs as"
  define n where "n = nat k"
  define rest where "rest = take n cs @ drop (n + 1) cs"
  have n: "n < length cs" using assms by (simp add: n_def cs_def)
  have R: "RemoveConfig (NewTokenManager quota) k as
             = (None, as\<lparr>configs := rest, tokenManager := NewTokenManager quota rest\<rparr>)"
    using assms by (simp add: RemoveConfig_def Let_def rest_def n_def cs_def)
  have cfg: "configs (snd (RemoveConfig (NewTokenManager quota) k as)) = rest"
    by (simp add: R)
  have len: "length rest + 1 = length cs"
    using n by (simp add: rest_def)
  have before: "rest ! j = cs ! j" if "j < n" for j
    using that n by (simp add: rest_def nth_append)
  have after: "rest ! (j - 1) = cs ! j" if "n < j" "j < length cs" for j
  proof -
    have "\<not> j - 1 < n" using that by simp
    moreover have "j - 1 - n + (n + 1) = j" using that by simp
    ultimately show ?thesis using that n by (simp add: rest_def nth_append min_def)
  qed
  have origin: "\<exists>j. j < length cs \<and> j \<noteq> n \<and> x = cs ! j" if "x \<in> set rest" for x
  proof -
    from that obtain i where i: "i < length rest" "x = rest ! i"
      unfolding in_set_conv_nth by blast
    show ?thesis
    proof (cases "i < n")
      case True
      then have "i < length cs \<and> i \<noteq> n \<and> x = cs ! i"
        using i before [OF True] n by simp
      then show ?thesis by blast
    next
      case False
      then have *: "n < i + 1" "i + 1 < length cs" using i len by auto
      have "i + 1 < length cs \<and> i + 1 \<noteq> n \<and> x = cs ! (i + 1)"
        using * after [OF *] i by simp
      then show ?thesis by blast
    qed
  qed
  have got: "credConfig c \<in> set rest"
    if "fst (GetToken ex now (snd (RemoveConfig (NewTokenManager quota) k as))) = Inr c" for c
  proof -
    have "fst (acquire ex now (NewTokenManager quota rest)) = Inr c"
      using that by (simp add: R GetToken_def Let_def)
    then show ?thesis
      using acquire_selected [of ex now "NewTokenManager quota rest" c]
      by (simp add: NewTokenManager_configs)
  qed
  have c1: "fst (RemoveConfig (NewTokenManager quota) k as) = None" by (simp add: R)
  have c2: "rest = take (nat k) (configs as) @ drop (nat k + 1) (configs as)"
    by (simp add: rest_def n_def cs_def)
  have c3: "length rest + 1 = length (configs as)" using len by (simp add: cs_def)
  have c4: "\<forall>j. j < nat k \<longrightarrow> rest ! j = configs as ! j"
    using before by (simp add: cs_def n_def)
  have c5: "\<forall>j. nat k < j \<and> j < length (configs as) \<longrightarrow> rest ! (j - 1) = configs as ! j"
    using after by (simp add: cs_def n_def)
  have c6: "\<forall>c. fst (GetToken ex now (snd (RemoveConfig (NewTokenManager quota) k as))) = Inr c
           \<longrightarrow> (\<exists>j. j < length (configs as) \<and> j \<noteq> nat k \<and> credConfig c = configs as ! j)
             \<and> (RefreshToken (configs as ! nat k) \<notin> RefreshToken ` set rest
                 \<longrightarrow> RefreshToken (credConfig c) \<noteq> RefreshToken (configs as ! nat k))"
  proof (intro allI impI conjI)
    fix c
    assume g: "fst (GetToken ex now (snd (RemoveConfig (NewTokenManager quota) k as))) = Inr c"
    show "\<exists>j. j < length (configs as) \<and> j \<noteq> nat k \<and> credConfig c = configs as ! j"
      using origin [OF got [OF g]] by (simp add: cs_def n_def)
    assume "RefreshToken (configs as ! nat k) \<notin> RefreshToken ` set rest"
    then show "RefreshToken (credConfig c) \<noteq> RefreshToken (configs as ! nat k)"
      using imageI [OF got [OF g], of RefreshToken] by metis
  qed
  show ?thesis
    unfolding cfg using c1 c2 c3 c4 c5 c6 by (intro conjI)
qed


theorem RemoveConfig_shifts_down_witness:
  "fst (RemoveConfig (NewTokenManager (\<lambda>cfg. 5)) 1
         \<lparr>tokenManager = [],
          configs = [\<lparr>AuthType = ''Social'', RefreshToken = ''a'', ClientID = [],
                      ClientSecret = [], Disabled = False\<rparr>,
                     \<lparr>AuthType = ''Social'', RefreshToken = ''b'', ClientID = [],
                      ClientSecret = [], Disabled = False\<rparr>,
                     \<lparr>AuthType = ''Social'', RefreshToken = ''c'', ClientID = [],
                      ClientSecret = [], Disabled = False\<rparr>]\<rparr>) = None
   \<and> configs (snd (RemoveConfig (NewTokenManager (\<lambda>cfg. 5)) 1
         \<lparr>tokenManager = [],
          configs = [\<lparr>AuthType = ''Social'', RefreshToken = ''a'', ClientID = [],
                      ClientSecret = [], Disabled = False\<rparr>,
                     \<lparr>AuthType = ''Social'', RefreshToken = ''b'', ClientID = [],
                      ClientSecret = [], Disabled = False\<rparr>,
                     \<lparr>AuthType = ''Social'', RefreshToken = ''c'', ClientID = [],
                      ClientSecret = [], Disabled = False\<rparr>]\<rparr>))
     = [\<lparr>AuthType = ''Social'', RefreshToken = ''a'', ClientID = [],
         ClientSecret = [], Disabled = False\<rparr>,
        \<lparr>AuthType = ''Social'', RefreshToken = ''c'', ClientID = [],
         ClientSecret = [], Disabled = False\<rparr>]
   \<and> fst (GetToken (\<lambda>cfg. Inr (''token'', 3600)) 0
         (snd (RemoveConfig (NewTokenManager (\<lambda>cfg. 5)) 1
           \<lparr>tokenManager = [],
            configs = [\<lparr>AuthType = ''Social'', RefreshToken = ''a'', ClientID = [],
                        ClientSecret = [], Disabled = False\<rparr>,
                       \<lparr>AuthType = ''Social'', RefreshToken = ''b'', ClientID = [],
                        ClientSecret = [], Disabled = False\<rparr>,
                       \<lparr>AuthType = ''Social'', RefreshToken = ''c'', ClientID = [],
                        ClientSecret = [], Disabled = False\<rparr>]\<rparr>)))
     = Inr \<lparr>credConfig = \<lparr>AuthType = ''Social'', RefreshToken = ''a'', ClientID = [],
                             ClientSecret = [], Disabled = False\<rparr>,
             accessToken = Some ''token'', expiry = 3600, remainingUsage = 4,
             lastError = None, lastRefresh = 0\<rparr>"
proof -
  have h1: "(0::int) \<le> 1" by simp
  have h2: "(1::int) < int (length (configs
         \<lparr>tokenManager = ([]::Credential list),
          configs = [\<lparr>AuthType = ''Social'', RefreshToken = ''a'', ClientID = [],
                      ClientSecret = [], Disabled = False\<rparr>,
                     \<lparr>AuthType = ''Social'', RefreshToken = ''b'', ClientID = [],
                      ClientSecret = [], Disabled = False\<rparr>,
                     \<lparr>AuthType = ''Social'', RefreshToken = ''c'', ClientID = [],
                      ClientSecret = [], Disabled = False\<rparr>]\<rparr>))" by simp
  show ?thesis
    using RemoveConfig_shifts_down [OF h1 h2, of "\<lambda>cfg. 5" "\<lambda>cfg. Inr (''token'', 3600)" 0]
    by (simp add: RemoveConfig_def NewTokenManager_def freshCredential_def GetToken_def
          acquire_def eligible_def expired_def charge_def Let_def)
qed

section \<open>Split invariance of the frame decoder\<close>

text \<open>
  C8. Feeding the chunks of a byte stream to a decoder with an empty buffer yields the
  frames that feeding the whole stream in one call yields. So two ways of splitting the
  same stream give the same sequence of complete frames, and, for a framing with a length
  prefix of at least one byte, the same decoder state after the last chunk (the same
  buffered tail, or the corruption).
\<close>

theorem decoder_split_invariance:
  "fst (feedAll F chunks (Buffering [])) = fst (feed F (concat chunks) (Buffering []))
   \<and> (concat chunks = concat chunks'
        \<longrightarrow> fst (feedAll F chunks (Buffering [])) = fst (feedAll F chunks' (Buffering []))
          \<and> (0 < prefixWidth F
               \<longrightarrow> feedAll F chunks (Buffering []) = feedAll F chunks' (Buffering [])))"
  by (simp add: feedAll_frames feedAll_whole feed_def)

theorem decoder_split_invariance_witness:
  "concat [[5, 1], [7, 9, 22, 3, 0], [3, 4]] = concat [[5, 1, 7, 9, 22, 3, 0, 3, 4 :: byte]]
   \<and> feedAll \<lparr>prefixWidth = 1, checksumWidth = 1, checksum = (\<lambda>bs. [foldl (+) 0 bs])\<rparr>
        [[5, 1], [7, 9, 22, 3, 0], [3, 4]] (Buffering [])
     = ([\<lparr>headers = [7], payload = [9]\<rparr>, \<lparr>headers = [], payload = []\<rparr>], Buffering [4])
   \<and> feedAll \<lparr>prefixWidth = 1, checksumWidth = 1, checksum = (\<lambda>bs. [foldl (+) 0 bs])\<rparr>
        [[5, 1, 7, 9, 22, 3, 0, 3, 4]] (Buffering [])
     = ([\<lparr>headers = [7], payload = [9]\<rparr>, \<lparr>headers = [], payload = []\<rparr>], Buffering [4])"
  using decoder_split_invariance
    [of "\<lparr>prefixWidth = 1, checksumWidth = 1, checksum = (\<lambda>bs. [foldl (+) 0 bs])\<rparr>"
        "[[5, 1], [7, 9, 22, 3, 0], [3, 4]]" "[[5, 1, 7, 9, 22, 3, 0, 3, 4]]"]
  by (simp add: feed_def extractFrames.simps decodeFrame_def overhead_def bigEndian_def)

section \<open>Removal by index\<close>

text \<open>
  C4. \<^verbatim>\<open>RemoveConfig\<close> returns an error exactly when the index is negative or not less
  than the number of configured credentials; the error is the invalid-index error carrying
  that index; and a call that returns the error leaves the service, its credential list
  included, as it was.
\<close>

theorem RemoveConfig_error_iff:
  "(fst (RemoveConfig newTM index as) \<noteq> None
      \<longleftrightarrow> index < 0 \<or> index \<ge> int (length (configs as)))
   \<and> (fst (RemoveConfig newTM index as) \<noteq> None
      \<longrightarrow> fst (RemoveConfig newTM index as) = Some (InvalidIndex index)
        \<and> snd (RemoveConfig newTM index as) = as)"
  by (simp add: RemoveConfig_def Let_def)

theorem RemoveConfig_error_witness:
  "fst (RemoveConfig (\<lambda>cs. length cs) 2
         \<lparr>tokenManager = 2,
          configs = [\<lparr>AuthType = ''Social'', RefreshToken = ''a'', ClientID = [],
                      ClientSecret = [], Disabled = False\<rparr>,
                     \<lparr>AuthType = ''Social'', RefreshToken = ''b'', ClientID = [],
                      ClientSecret = [], Disabled = False\<rparr>]\<rparr>)
     = Some (InvalidIndex 2)
   \<and> snd (RemoveConfig (\<lambda>cs. length cs) 2
         \<lparr>tokenManager = 2,
          configs = [\<lparr>AuthType = ''Social'', RefreshToken = ''a'', ClientID = [],
                      ClientSecret = [], Disabled = False\<rparr>,
                     \<lparr>AuthType = ''Social'', RefreshToken = ''b'', ClientID = [],
                      ClientSecret = [], Disabled = False\<rparr>]\<rparr>)
     = \<lparr>tokenManager = 2,
        configs = [\<lparr>AuthType = ''Social'', RefreshToken = ''a'', ClientID = [],
                    ClientSecret = [], Disabled = False\<rparr>,
                   \<lparr>AuthType = ''Social'', RefreshToken = ''b'', ClientID = [],
                    ClientSecret = [], Disabled = False\<rparr>]\<rparr>"
  using RemoveConfig_error_iff
    [of "\<lambda>cs. length cs" 2
        "\<lparr>tokenManager = 2,
          configs = [\<lparr>AuthType = ''Social'', RefreshToken = ''a'', ClientID = [],
                      ClientSecret = [], Disabled = False\<rparr>,
                     \<lparr>AuthType = ''Social'', RefreshToken = ''b'', ClientID = [],
                      ClientSecret = [], Disabled = False\<rparr>]\<rparr>"]
  by simp

section \<open>Availability\<close>

text \<open>
  C10. \<^verbatim>\<open>HasAvailableToken\<close> is true exactly when the config count is positive. It reads
  nothing but the length of the config list: whatever the token manager's state (expiry,
  usage counters, last errors) and whatever the fields of the configs (the disabled flag
  among them), a service with at least one config reports an available token.
\<close>

theorem HasAvailableToken_iff_count:
  "(HasAvailableToken as \<longleftrightarrow> GetConfigCount as > 0)
   \<and> (HasAvailableToken \<lparr>tokenManager = tm, configs = cs\<rparr> \<longleftrightarrow> cs \<noteq> [])
   \<and> HasAvailableToken \<lparr>tokenManager = tm, configs = c\<lparr>Disabled := True\<rparr> # cs\<rparr>"
  by (simp add: HasAvailableToken_def GetConfigCount_def)

end
